theory Spec2Isabelle
  imports Complex_Main
begin

section \<open>Weather station generator: shallow embedding of generator.py\<close>

text \<open>
  The generator keeps four slowly drifting base values and a compass index, and
  produces one reading per call of \<open>generate\<close>. Python integers are modelled as
  \<^typ>\<open>int\<close> and the values of Python floats as \<^typ>\<open>real\<close>. Every value the source
  obtains from \<open>random\<close> or from the wall clock is an explicit argument of the model:
  the caller's local hour, and one field of the record \<open>draws\<close> per call of the
  random module, in the order of the source.

  The updates of the base values and the sine are computed in exact arithmetic; their
  results are clamped or compared, which the last bit of a double does not change.
  The four expressions that the source hands to \<open>round(..., 2)\<close> are different: which
  way a value rounds depends on its last bit. These expressions are therefore
  computed as the source computes them, operation by operation, each result rounded
  to the nearest double by \<open>fl\<close>.
\<close>

subsection \<open>Constants and data\<close>

datatype py_error = IndexError

text \<open>
  The eight condition labels of the source are Russian strings; they are modelled
  as an enumeration in the source's order: Yasno (clear), Malooblachno (partly
  cloudy), Oblachno (cloudy), Pasmurno (overcast), Nebolshoy dozhd (light rain),
  Dozhd (rain), Groza (thunderstorm), Tuman (fog).
\<close>

datatype condition =
  Clear | PartlyCloudy | Cloudy | Overcast | LightRain | Rain | Thunderstorm | Fog

definition WIND_DIRECTIONS :: "string list" where
  "WIND_DIRECTIONS = [''N'', ''NE'', ''E'', ''SE'', ''S'', ''SW'', ''W'', ''NW'']"

definition WEATHER_CONDITIONS :: "(condition \<times> real) list" where
  "WEATHER_CONDITIONS =
     [(Clear, 0.25), (PartlyCloudy, 0.20), (Cloudy, 0.20), (Overcast, 0.15),
      (LightRain, 0.10), (Rain, 0.05), (Thunderstorm, 0.03), (Fog, 0.02)]"

record StationState =
  base_temperature :: real
  base_humidity :: real
  base_pressure :: real
  base_wind_speed :: real
  current_direction_idx :: int
  time_counter :: int

record WeatherReading =
  temperature :: real
  humidity :: real
  pressure :: real
  wind_speed :: real
  wind_direction :: string
  weather_condition :: condition

text \<open>
  The random values consumed by one call of \<open>generate\<close>, in source order. The
  Gaussian draws are the results of \<open>random.gauss\<close>; \<open>gust_draw\<close> and
  \<open>direction_draw\<close> are results of \<open>random.random()\<close>; \<open>direction_choice\<close> is the
  result of \<open>random.choice([-1, 1])\<close>; \<open>weather_draw\<close> is the \<open>random.random()\<close>
  underlying \<open>random.uniform(0, total)\<close> in the weighted selection.
\<close>

record draws =
  temperature_variation :: real
  temperature_noise :: real
  humidity_variation :: real
  humidity_noise :: real
  pressure_variation :: real
  pressure_noise :: real
  wind_variation :: real
  gust_draw :: real
  wind_noise :: real
  direction_draw :: real
  direction_choice :: int
  weather_draw :: real

text \<open>The random values consumed by the constructor.\<close>

record init_draws =
  init_temperature :: real
  init_humidity :: real
  init_pressure :: real
  init_wind_speed :: real
  init_direction :: int

text \<open>What the random module can return: \<open>random()\<close> lies in \<open>[0, 1)\<close>,
  \<open>choice([-1, 1])\<close> is one of the two, \<open>randint(0, 7)\<close> lies in \<open>[0, 7]\<close>.\<close>

definition unit_draw :: "real \<Rightarrow> bool" where
  "unit_draw u = (0 \<le> u \<and> u < 1)"

definition draws_ok :: "draws \<Rightarrow> bool" where
  "draws_ok d =
     (unit_draw (gust_draw d) \<and> unit_draw (direction_draw d) \<and>
      unit_draw (weather_draw d) \<and> direction_choice d \<in> set [-1, 1])"

definition init_draws_ok :: "init_draws \<Rightarrow> bool" where
  "init_draws_ok i =
     (unit_draw (init_temperature i) \<and> unit_draw (init_humidity i) \<and>
      unit_draw (init_pressure i) \<and> unit_draw (init_wind_speed i) \<and>
      0 \<le> init_direction i \<and> init_direction i \<le> int (length WIND_DIRECTIONS) - 1)"

subsection \<open>Library functions of Python\<close>

text \<open>\<open>random.uniform(a, b)\<close> is \<open>a + (b - a) * random()\<close>.\<close>

definition uniform :: "real \<Rightarrow> real \<Rightarrow> real \<Rightarrow> real" where
  "uniform a b u = a + (b - a) * u"

text \<open>\<open>round(y)\<close> to the nearest integer, ties to the even neighbour.\<close>

definition py_round :: "real \<Rightarrow> int" where
  "py_round y =
     (let f = \<lfloor>y\<rfloor>; frac = y - of_int f
      in if frac < 1 / 2 then f
         else if 1 / 2 < frac then f + 1
         else if even f then f else f + 1)"

text \<open>
  The double nearest to a real number, ties to the even significand: a double has a
  significand of 53 bits, so in the binade \<open>[2^e, 2^(e+1))\<close> the doubles are the
  multiples of \<open>2^(e-52)\<close>; below \<open>2^(-1022)\<close> the spacing stays \<open>2^(-1074)\<close>. An
  addition or multiplication of two doubles returns \<open>fl\<close> of the exact result.
  Overflow to infinity is not modelled.
\<close>

definition fl :: "real \<Rightarrow> real" where
  "fl x =
     (if x = 0 then 0
      else let e = max \<lfloor>log 2 \<bar>x\<bar>\<rfloor> (-1022); ulp = 2 powr (of_int e - 52)
           in of_int (py_round (x / ulp)) * ulp)"

text \<open>\<open>round(x, 2)\<close>: the exact value of the float \<open>x\<close>, rounded to two decimals with
  ties to the even neighbour. The float that Python returns is the double nearest to
  this decimal.\<close>

definition round2 :: "real \<Rightarrow> real" where
  "round2 x = of_int (py_round (x * 100)) / 100"

text \<open>List indexing with an integer: negative indices count from the end, anything
  outside raises IndexError.\<close>

definition py_index :: "'a list \<Rightarrow> int \<Rightarrow> py_error + 'a" where
  "py_index xs i =
     (if 0 \<le> i \<and> i < int (length xs) then Inr (xs ! nat i)
      else if - int (length xs) \<le> i \<and> i < 0 then Inr (xs ! nat (int (length xs) + i))
      else Inl IndexError)"

subsection \<open>The generator\<close>

definition init :: "init_draws \<Rightarrow> StationState" where
  "init i =
     \<lparr> base_temperature = uniform 15 25 (init_temperature i),
       base_humidity = uniform 40 70 (init_humidity i),
       base_pressure = uniform 1000 1025 (init_pressure i),
       base_wind_speed = uniform 1 5 (init_wind_speed i),
       current_direction_idx = init_direction i,
       time_counter = 0 \<rparr>"

definition get_seasonal_factor :: "int \<Rightarrow> real" where
  "get_seasonal_factor hour = sin ((of_int hour - 4) * pi / 12)"

text \<open>The loop of \<open>_weighted_choice\<close>, with the running sum \<open>upto\<close> of the source as
  \<open>upto_acc\<close>: \<open>None\<close> when the loop ends without returning. After the loop the
  source returns \<open>choices[-1][0]\<close>, which raises IndexError on an empty list.\<close>

fun weighted_walk :: "('a \<times> real) list \<Rightarrow> real \<Rightarrow> real \<Rightarrow> 'a option" where
  "weighted_walk [] upto_acc r = None"
| "weighted_walk ((choice, weight) # rest) upto_acc r =
     (if upto_acc + weight \<ge> r then Some choice
      else weighted_walk rest (upto_acc + weight) r)"

definition weighted_choice_at :: "('a \<times> real) list \<Rightarrow> real \<Rightarrow> py_error + 'a" where
  "weighted_choice_at choices r =
     (case weighted_walk choices 0 r of
        Some choice \<Rightarrow> Inr choice
      | None \<Rightarrow> (case py_index choices (-1) of
                   Inl e \<Rightarrow> Inl e
                 | Inr c \<Rightarrow> Inr (fst c)))"

definition weighted_choice :: "('a \<times> real) list \<Rightarrow> real \<Rightarrow> py_error + 'a" where
  "weighted_choice choices u =
     (let total = sum_list (map snd choices);
          r = uniform 0 total u
      in weighted_choice_at choices r)"

text \<open>The \<open>if\<close>/\<open>elif\<close>/\<open>else\<close> of \<open>generate\<close> that picks \<open>weather_choices\<close> from the
  pressure and humidity already computed for the reading.\<close>

definition weather_choices :: "real \<Rightarrow> real \<Rightarrow> (condition \<times> real) list" where
  "weather_choices p h =
     (if p < 1000 \<and> h > 70 then
        [(Overcast, 0.3), (LightRain, 0.3), (Rain, 0.25), (Thunderstorm, 0.1), (Fog, 0.05)]
      else if p > 1020 then
        [(Clear, 0.5), (PartlyCloudy, 0.35), (Cloudy, 0.15)]
      else WEATHER_CONDITIONS)"

text \<open>One call of \<open>generate\<close>, statement by statement. The result is the updated
  generator together with the reading. The only statements that can raise are the
  compass lookup and the weighted selection; both come after the last update of the
  generator's fields, and the model returns just the error in that case.\<close>

definition generate ::
  "StationState \<Rightarrow> int \<Rightarrow> draws \<Rightarrow> py_error + (StationState \<times> WeatherReading)" where
  "generate self hour d =
     (let tc = time_counter self + 1;
          seasonal_factor = get_seasonal_factor hour;
          bt = base_temperature self + temperature_variation d * 0.1;
          bt = max (-10) (min 35 bt);
          t = round2 (fl (fl (bt + fl (seasonal_factor * 5)) + temperature_noise d));
          bh = base_humidity self + humidity_variation d * 0.2;
          humidity_adjustment = - seasonal_factor * 10;
          bh = max 20 (min 100 (bh + humidity_adjustment * 0.1));
          h = round2 (fl (bh + humidity_noise d));
          h = max 20 (min 100 h);
          bp = base_pressure self + pressure_variation d * 0.05;
          bp = max 980 (min 1040 bp);
          p = round2 (fl (bp + pressure_noise d));
          bw = base_wind_speed self + wind_variation d * 0.1;
          bw = max 0 (min 20 bw);
          gust = (gust_draw d < 0.1);
          w = round2 (fl (fl (bw * (if gust then 1.5 else 1)) + wind_noise d));
          w = max 0 (min 25 w);
          idx = (if direction_draw d < 0.05
                 then (current_direction_idx self + direction_choice d)
                        mod int (length WIND_DIRECTIONS)
                 else current_direction_idx self);
          self' = \<lparr> base_temperature = bt, base_humidity = bh, base_pressure = bp,
                    base_wind_speed = bw, current_direction_idx = idx,
                    time_counter = tc \<rparr>
      in case py_index WIND_DIRECTIONS idx of
           Inl e \<Rightarrow> Inl e
         | Inr wd \<Rightarrow>
             (case weighted_choice (weather_choices p h) (weather_draw d) of
                Inl e \<Rightarrow> Inl e
              | Inr wc \<Rightarrow>
                  Inr (self',
                       \<lparr> temperature = t, humidity = h, pressure = p, wind_speed = w,
                         wind_direction = wd, weather_condition = wc \<rparr>)))"

text \<open>Names for the values \<open>generate\<close> binds on its way: the four base values after
  their update and clamp, the direction index after its possible shift, and the four
  numeric fields of the reading.\<close>

definition new_base_temperature :: "StationState \<Rightarrow> draws \<Rightarrow> real" where
  "new_base_temperature self d =
     max (-10) (min 35 (base_temperature self + temperature_variation d * 0.1))"

definition new_base_humidity :: "StationState \<Rightarrow> int \<Rightarrow> draws \<Rightarrow> real" where
  "new_base_humidity self hour d =
     max 20 (min 100 (base_humidity self + humidity_variation d * 0.2
                        + (- get_seasonal_factor hour * 10) * 0.1))"

definition new_base_pressure :: "StationState \<Rightarrow> draws \<Rightarrow> real" where
  "new_base_pressure self d =
     max 980 (min 1040 (base_pressure self + pressure_variation d * 0.05))"

definition new_base_wind_speed :: "StationState \<Rightarrow> draws \<Rightarrow> real" where
  "new_base_wind_speed self d =
     max 0 (min 20 (base_wind_speed self + wind_variation d * 0.1))"

definition new_direction_idx :: "StationState \<Rightarrow> draws \<Rightarrow> int" where
  "new_direction_idx self d =
     (if direction_draw d < 0.05
      then (current_direction_idx self + direction_choice d) mod int (length WIND_DIRECTIONS)
      else current_direction_idx self)"

definition out_temperature :: "StationState \<Rightarrow> int \<Rightarrow> draws \<Rightarrow> real" where
  "out_temperature self hour d =
     round2 (fl (fl (new_base_temperature self d + fl (get_seasonal_factor hour * 5))
                   + temperature_noise d))"

definition out_humidity :: "StationState \<Rightarrow> int \<Rightarrow> draws \<Rightarrow> real" where
  "out_humidity self hour d =
     max 20 (min 100 (round2 (fl (new_base_humidity self hour d + humidity_noise d))))"

definition out_pressure :: "StationState \<Rightarrow> draws \<Rightarrow> real" where
  "out_pressure self d = round2 (fl (new_base_pressure self d + pressure_noise d))"

definition out_wind_speed :: "StationState \<Rightarrow> draws \<Rightarrow> real" where
  "out_wind_speed self d =
     max 0 (min 25 (round2 (fl (fl (new_base_wind_speed self d
                                       * (if gust_draw d < 0.1 then 1.5 else 1))
                                   + wind_noise d))))"

definition new_state :: "StationState \<Rightarrow> int \<Rightarrow> draws \<Rightarrow> StationState" where
  "new_state self hour d =
     \<lparr> base_temperature = new_base_temperature self d,
       base_humidity = new_base_humidity self hour d,
       base_pressure = new_base_pressure self d,
       base_wind_speed = new_base_wind_speed self d,
       current_direction_idx = new_direction_idx self d,
       time_counter = time_counter self + 1 \<rparr>"

text \<open>States the program can be in: the constructor's result, and whatever a
  successful call of \<open>generate\<close> leaves behind.\<close>

inductive reachable :: "StationState \<Rightarrow> bool" where
  reachable_init: "init_draws_ok i \<Longrightarrow> reachable (init i)"
| reachable_generate:
    "reachable s \<Longrightarrow> draws_ok d \<Longrightarrow> 0 \<le> hour \<Longrightarrow> hour \<le> 23 \<Longrightarrow>
     generate s hour d = Inr (s', r) \<Longrightarrow> reachable s'"

definition state_ok :: "StationState \<Rightarrow> bool" where
  "state_ok s =
     (-10 \<le> base_temperature s \<and> base_temperature s \<le> 35 \<and>
      20 \<le> base_humidity s \<and> base_humidity s \<le> 100 \<and>
      980 \<le> base_pressure s \<and> base_pressure s \<le> 1040 \<and>
      0 \<le> base_wind_speed s \<and> base_wind_speed s \<le> 20 \<and>
      0 \<le> current_direction_idx s \<and> current_direction_idx s < 8)"

subsection \<open>Weighted selection as the specification words it\<close>

text \<open>The cumulative weight of the entries up to and including position \<open>k\<close>.\<close>

definition cumulative :: "('a \<times> real) list \<Rightarrow> nat \<Rightarrow> real" where
  "cumulative choices k = sum_list (map snd (take (Suc k) choices))"

text \<open>The specification's selection rule: the first entry whose cumulative weight is
  at least \<open>r\<close>, and the last entry when there is none.\<close>

definition select_spec :: "('a \<times> real) list \<Rightarrow> real \<Rightarrow> 'a" where
  "select_spec choices r =
     (case find (\<lambda>k. cumulative choices k \<ge> r) [0..<length choices] of
        Some k \<Rightarrow> fst (choices ! k)
      | None \<Rightarrow> fst (last choices))"

subsection \<open>Connecting to the database\<close>

text \<open>
  What one call of \<open>psycopg2.connect\<close> does: it returns a connection, raises
  \<open>psycopg2.OperationalError\<close>, or raises some other exception. The environment is the
  function giving the outcome of the call made in each iteration of the loop. The
  effects of \<open>connect_to_db\<close> are recorded as a trace of connection attempts and
  sleeps (in seconds); console output is left out.
\<close>

datatype ('c, 'e) connect_outcome = Connected 'c | OperationalError | OtherException 'e

datatype 'e connect_error = ConnectionExhausted | Propagated 'e

datatype event = Attempt | Sleep nat

definition max_retries :: nat where
  "max_retries = 30"

definition retry_delay :: nat where
  "retry_delay = 2"

fun connect_loop ::
  "(nat \<Rightarrow> ('c, 'e) connect_outcome) \<Rightarrow> nat list \<Rightarrow> ('e connect_error + 'c) \<times> event list" where
  "connect_loop env [] = (Inl ConnectionExhausted, [])"
| "connect_loop env (attempt # rest) =
     (case env attempt of
        Connected conn \<Rightarrow> (Inr conn, [Attempt])
      | OperationalError \<Rightarrow>
          (let (res, tr) = connect_loop env rest
           in (res, Attempt # Sleep retry_delay # tr))
      | OtherException e \<Rightarrow> (Inl (Propagated e), [Attempt]))"

definition connect_to_db ::
  "(nat \<Rightarrow> ('c, 'e) connect_outcome) \<Rightarrow> ('e connect_error + 'c) \<times> event list" where
  "connect_to_db env = connect_loop env [0..<max_retries]"

definition attempts :: "event list \<Rightarrow> nat" where
  "attempts tr = count_list tr Attempt"

subsection \<open>Concrete inputs\<close>

text \<open>A constructor run and one call of \<open>generate\<close> at four in the morning, with a
  gust and a direction shift. The sum for the wind speed is 4.675 in exact
  arithmetic; the double sum lies just below it and rounds down to 4.67.\<close>

definition init_draws0 :: init_draws where
  "init_draws0 = \<lparr> init_temperature = 0.5, init_humidity = 0.5, init_pressure = 0.5,
                   init_wind_speed = 0.5, init_direction = 3 \<rparr>"

definition draws0 :: draws where
  "draws0 = \<lparr> temperature_variation = 0.4, temperature_noise = 0.123,
              humidity_variation = -1, humidity_noise = 1.5,
              pressure_variation = 0.2, pressure_noise = -0.3,
              wind_variation = 0.5, gust_draw = 0.05, wind_noise = 0.1,
              direction_draw = 0.01, direction_choice = -1, weather_draw = 0.5 \<rparr>"

definition state0 :: StationState where
  "state0 = \<lparr> base_temperature = 20, base_humidity = 55, base_pressure = 1012.5,
              base_wind_speed = 3, current_direction_idx = 3, time_counter = 0 \<rparr>"

definition state1 :: StationState where
  "state1 = \<lparr> base_temperature = 20.04, base_humidity = 54.8, base_pressure = 1012.51,
              base_wind_speed = 3.05, current_direction_idx = 2, time_counter = 1 \<rparr>"

definition reading1 :: WeatherReading where
  "reading1 = \<lparr> temperature = 20.16, humidity = 56.3, pressure = 1012.21,
                wind_speed = 4.67, wind_direction = ''E'', weather_condition = Cloudy \<rparr>"

text \<open>The same call at ten in the morning, when the seasonal factor is 1.\<close>

definition state1_h10 :: StationState where
  "state1_h10 = \<lparr> base_temperature = 20.04, base_humidity = 53.8, base_pressure = 1012.51,
                  base_wind_speed = 3.05, current_direction_idx = 2, time_counter = 1 \<rparr>"

definition reading1_h10 :: WeatherReading where
  "reading1_h10 = \<lparr> temperature = 25.16, humidity = 55.3, pressure = 1012.21,
                    wind_speed = 4.67, wind_direction = ''E'', weather_condition = Cloudy \<rparr>"

text \<open>A call in the low-pressure, high-humidity regime.\<close>

definition rain_state :: StationState where
  "rain_state = \<lparr> base_temperature = 10, base_humidity = 85, base_pressure = 990,
                  base_wind_speed = 6, current_direction_idx = 0, time_counter = 41 \<rparr>"

definition rain_state' :: StationState where
  "rain_state' = \<lparr> base_temperature = 10.04, base_humidity = 84.8, base_pressure = 990.01,
                   base_wind_speed = 6.05, current_direction_idx = 7, time_counter = 42 \<rparr>"

definition rain_reading :: WeatherReading where
  "rain_reading = \<lparr> temperature = 10.16, humidity = 86.3, pressure = 989.71,
                    wind_speed = 9.17, wind_direction = ''NW'', weather_condition = LightRain \<rparr>"

text \<open>A call at ten in the morning with both the base temperature and the base
  pressure at the upper end of their clamp ranges, and small positive noise.\<close>

definition edge_state :: StationState where
  "edge_state = \<lparr> base_temperature = 35, base_humidity = 50, base_pressure = 1040,
                  base_wind_speed = 5, current_direction_idx = 0, time_counter = 100 \<rparr>"

definition edge_draws :: draws where
  "edge_draws = \<lparr> temperature_variation = 0, temperature_noise = 0.006,
                  humidity_variation = 0, humidity_noise = 0,
                  pressure_variation = 0, pressure_noise = 0.006,
                  wind_variation = 0, gust_draw = 0.5, wind_noise = 0,
                  direction_draw = 0.5, direction_choice = 1, weather_draw = 0.5 \<rparr>"

definition edge_state' :: StationState where
  "edge_state' = \<lparr> base_temperature = 35, base_humidity = 49, base_pressure = 1040,
                   base_wind_speed = 5, current_direction_idx = 0, time_counter = 101 \<rparr>"

definition edge_reading :: WeatherReading where
  "edge_reading = \<lparr> temperature = 40.01, humidity = 49, pressure = 1040.01,
                    wind_speed = 5, wind_direction = ''N'', weather_condition = Clear \<rparr>"

text \<open>A call at ten in the morning with the base temperature at the upper and the
  base pressure at the lower end of its range. The pressure noise is the double
  nearest to -0.235 and the temperature noise the double nearest to 0.015, so that in
  exact arithmetic both sums lie a hair on one side of a rounding tie (979.765 and
  40.015) and the double sums on the other.\<close>

definition tight_state :: StationState where
  "tight_state = \<lparr> base_temperature = 35, base_humidity = 50, base_pressure = 980,
                   base_wind_speed = 5, current_direction_idx = 0, time_counter = 100 \<rparr>"

definition tight_draws :: draws where
  "tight_draws = \<lparr> temperature_variation = 0,
                   temperature_noise = 1080863910568919 / 72057594037927936,
                   humidity_variation = 0, humidity_noise = 0,
                   pressure_variation = 0,
                   pressure_noise = - (2116691824864133 / 9007199254740992),
                   wind_variation = 0, gust_draw = 0.5, wind_noise = 0,
                   direction_draw = 0.5, direction_choice = 1, weather_draw = 0.5 \<rparr>"

definition tight_state' :: StationState where
  "tight_state' = \<lparr> base_temperature = 35, base_humidity = 49, base_pressure = 980,
                    base_wind_speed = 5, current_direction_idx = 0, time_counter = 101 \<rparr>"

definition tight_reading :: WeatherReading where
  "tight_reading = \<lparr> temperature = 40.02, humidity = 49, pressure = 979.76,
                     wind_speed = 5, wind_direction = ''N'', weather_condition = Cloudy \<rparr>"

text \<open>Three databases: one that comes up at the fourth attempt, one that never comes
  up, and one that rejects the third attempt with an exception of another kind.\<close>

definition env_late :: "nat \<Rightarrow> (nat, string) connect_outcome" where
  "env_late k = (if k < 3 then OperationalError else Connected 7)"

definition env_down :: "nat \<Rightarrow> (nat, string) connect_outcome" where
  "env_down k = OperationalError"

definition env_denied :: "nat \<Rightarrow> (nat, string) connect_outcome" where
  "env_denied k = (if k < 2 then OperationalError else OtherException ''ProgrammingError'')"

section \<open>Properties\<close>

subsection \<open>Python library functions\<close>

lemma uniform_range:
  assumes "a \<le> b" and "unit_draw u"
  shows "a \<le> uniform a b u \<and> uniform a b u \<le> b"
proof -
  have "0 \<le> (b - a) * u"
    using assms by (simp add: unit_draw_def)
  moreover have "(b - a) * u \<le> (b - a) * 1"
    using assms by (intro mult_left_mono) (simp_all add: unit_draw_def)
  ultimately show ?thesis by (simp add: uniform_def)
qed

lemma py_round_close: "\<bar>of_int (py_round y) - y\<bar> \<le> 1 / 2"
  unfolding py_round_def Let_def by (auto; linarith)

lemma round2_close: "\<bar>round2 x - x\<bar> \<le> 1 / 200"
proof -
  have "\<bar>of_int (py_round (x * 100)) - x * 100\<bar> \<le> 1 / 2"
    by (rule py_round_close)
  then show ?thesis
    unfolding round2_def by (simp add: field_simps abs_le_iff)
qed

lemma round2_upper: "round2 x \<le> x + 5 / 1000"
  using round2_close [of x] by linarith

lemma round2_lower: "x - 5 / 1000 \<le> round2 x"
  using round2_close [of x] by linarith

lemma fl_zero: "fl 0 = 0"
  by (simp add: fl_def)

lemma floor_log2:
  assumes "2 ^ k \<le> \<bar>x\<bar>" and "\<bar>x\<bar> < 2 ^ Suc k"
  shows "\<lfloor>log 2 \<bar>x\<bar>\<rfloor> = int k"
proof -
  have pos: "0 < \<bar>x\<bar>"
    using assms(1) by (smt (verit) zero_less_power)
  have "real k \<le> log 2 \<bar>x\<bar>"
    using assms(1) pos by (simp add: le_log_iff powr_realpow)
  moreover have "log 2 \<bar>x\<bar> < real k + 1"
    using assms(2) pos by (simp add: log_less_iff powr_add powr_realpow)
  ultimately show ?thesis
    by (simp add: floor_eq_iff)
qed

lemma fl_eval:
  assumes "2 ^ k \<le> \<bar>x\<bar>" and "\<bar>x\<bar> < 2 ^ Suc k" and "k \<le> 52"
  shows "fl x = of_int (py_round (x * 2 ^ (52 - k))) / 2 ^ (52 - k)"
proof -
  have nz: "x \<noteq> 0"
    using assms(1) by (smt (verit) abs_zero zero_less_power)
  have e: "max \<lfloor>log 2 \<bar>x\<bar>\<rfloor> (-1022) = int k"
    using floor_log2 [OF assms(1,2)] by simp
  have "(2::real) powr (real k - 52) = 2 powr (- real (52 - k))"
    using assms(3) by (simp add: of_nat_diff)
  also have "\<dots> = 1 / 2 ^ (52 - k)"
    by (simp add: powr_minus powr_realpow divide_simps)
  finally have ulp: "(2::real) powr (real k - 52) = 1 / 2 ^ (52 - k)" .
  have "fl x = of_int (py_round (x / 2 powr (real k - 52))) * 2 powr (real k - 52)"
    using nz by (simp add: fl_def e Let_def)
  then show ?thesis
    by (simp only: ulp) simp
qed

lemma fl_error: "\<bar>fl x - x\<bar> \<le> (\<bar>x\<bar> + 1) / 2 ^ 53"
proof (cases "x = 0")
  case True
  then show ?thesis by (simp add: fl_def)
next
  case False
  define e where "e = max \<lfloor>log 2 \<bar>x\<bar>\<rfloor> (-1022)"
  define ulp :: real where "ulp = 2 powr (of_int e - 52)"
  have ulp_pos: "0 < ulp"
    by (simp add: ulp_def)
  have ulp_split: "ulp = 2 powr of_int e / 2 ^ 52"
    by (simp add: ulp_def powr_diff powr_realpow [symmetric])
  have fl: "fl x = of_int (py_round (x / ulp)) * ulp"
    using False by (simp add: fl_def e_def ulp_def Let_def)
  have "fl x - x = (of_int (py_round (x / ulp)) - x / ulp) * ulp"
    using ulp_pos by (simp add: fl left_diff_distrib)
  then have "\<bar>fl x - x\<bar> = \<bar>of_int (py_round (x / ulp)) - x / ulp\<bar> * ulp"
    using ulp_pos by (simp add: abs_mult)
  also have "\<dots> \<le> 1 / 2 * ulp"
    using py_round_close [of "x / ulp"] ulp_pos by (intro mult_right_mono) simp_all
  finally have err: "\<bar>fl x - x\<bar> \<le> ulp / 2"
    by simp
  have "2 powr of_int e \<le> \<bar>x\<bar> + 1"
  proof (cases "\<lfloor>log 2 \<bar>x\<bar>\<rfloor> \<ge> -1022")
    case True
    then have "e = \<lfloor>log 2 \<bar>x\<bar>\<rfloor>"
      by (simp add: e_def)
    then have "of_int e \<le> log 2 \<bar>x\<bar>"
      by simp
    then have "2 powr of_int e \<le> 2 powr log 2 \<bar>x\<bar>"
      by (simp only: powr_le_cancel_iff)
    then show ?thesis
      using False by simp
  next
    case low: False
    then have "of_int e \<le> (0::real)"
      by (simp add: e_def)
    then have "(2::real) powr of_int e \<le> 2 powr 0"
      by (intro powr_mono) simp_all
    then show ?thesis
      by simp
  qed
  then have "ulp \<le> (\<bar>x\<bar> + 1) / 2 ^ 52"
    unfolding ulp_split by (simp add: divide_right_mono)
  with err show ?thesis
    by (simp add: field_simps)
qed

lemmas fl_binades = fl_eval [where k = 2] fl_eval [where k = 3] fl_eval [where k = 4]
  fl_eval [where k = 5] fl_eval [where k = 6] fl_eval [where k = 9] fl_eval [where k = 10]

lemma py_index_last:
  assumes "xs \<noteq> []"
  shows "py_index xs (-1) = Inr (last xs)"
proof -
  from assms have len: "1 \<le> length xs"
    by (cases xs) simp_all
  then have "nat (int (length xs) + (-1)) = length xs - 1"
    by simp
  with len assms show ?thesis
    by (simp add: py_index_def last_conv_nth)
qed

lemma py_index_in_range:
  "0 \<le> i \<Longrightarrow> i < int (length xs) \<Longrightarrow> py_index xs i = Inr (xs ! nat i)"
  by (simp add: py_index_def)

subsection \<open>The seasonal factor\<close>

lemma seasonal_factor_bounds:
  "-1 \<le> get_seasonal_factor hour \<and> get_seasonal_factor hour \<le> 1"
  by (simp add: get_seasonal_factor_def)

lemma seasonal_factor_4: "get_seasonal_factor 4 = 0"
  by (simp add: get_seasonal_factor_def)

lemma seasonal_factor_10: "get_seasonal_factor 10 = 1"
  by (simp add: get_seasonal_factor_def)

subsection \<open>Weighted selection\<close>

lemma weighted_walk_mem: "weighted_walk cs acc r = Some c \<Longrightarrow> c \<in> fst ` set cs"
  by (induction cs acc r rule: weighted_walk.induct) (auto split: if_splits)

lemma weighted_choice_at_mem:
  assumes "weighted_choice_at cs r = Inr c"
  shows "c \<in> fst ` set cs"
proof (cases "cs = []")
  case True
  with assms show ?thesis
    by (simp add: weighted_choice_at_def py_index_def)
next
  case False
  with assms show ?thesis
    by (auto simp: weighted_choice_at_def py_index_last
             split: option.splits dest: weighted_walk_mem)
qed

lemma weighted_choice_mem:
  "weighted_choice cs u = Inr c \<Longrightarrow> c \<in> fst ` set cs"
  unfolding weighted_choice_def Let_def by (rule weighted_choice_at_mem)

lemma weighted_choice_total:
  "cs \<noteq> [] \<Longrightarrow> \<exists>c. weighted_choice cs u = Inr c"
  by (auto simp: weighted_choice_def weighted_choice_at_def Let_def py_index_last
           split: option.splits)

lemma weather_choices_nonempty: "weather_choices p h \<noteq> []"
  by (simp add: weather_choices_def WEATHER_CONDITIONS_def)

subsection \<open>One call of generate\<close>

lemmas generate_aux_defs =
  new_state_def new_base_temperature_def new_base_humidity_def new_base_pressure_def
  new_base_wind_speed_def new_direction_idx_def out_temperature_def out_humidity_def
  out_pressure_def out_wind_speed_def

lemma generate_unfold:
  "generate s hour d =
     (case py_index WIND_DIRECTIONS (new_direction_idx s d) of
        Inl e \<Rightarrow> Inl e
      | Inr wd \<Rightarrow>
          (case weighted_choice (weather_choices (out_pressure s d) (out_humidity s hour d))
                  (weather_draw d) of
             Inl e \<Rightarrow> Inl e
           | Inr wc \<Rightarrow>
               Inr (new_state s hour d,
                    \<lparr> temperature = out_temperature s hour d,
                      humidity = out_humidity s hour d,
                      pressure = out_pressure s d,
                      wind_speed = out_wind_speed s d,
                      wind_direction = wd, weather_condition = wc \<rparr>)))"
  by (simp only: generate_def Let_def generate_aux_defs)

lemma generate_Inr:
  assumes "generate s hour d = Inr (s', r)"
  shows "s' = new_state s hour d"
    and "temperature r = out_temperature s hour d"
    and "humidity r = out_humidity s hour d"
    and "pressure r = out_pressure s d"
    and "wind_speed r = out_wind_speed s d"
    and "py_index WIND_DIRECTIONS (new_direction_idx s d) = Inr (wind_direction r)"
    and "weighted_choice (weather_choices (out_pressure s d) (out_humidity s hour d))
           (weather_draw d) = Inr (weather_condition r)"
  using assms unfolding generate_unfold by (auto split: sum.splits)

lemma new_direction_idx_range:
  assumes "0 \<le> current_direction_idx s" "current_direction_idx s < 8"
  shows "0 \<le> new_direction_idx s d \<and> new_direction_idx s d < 8"
  using assms by (simp add: new_direction_idx_def WIND_DIRECTIONS_def)

lemma generate_total:
  assumes "0 \<le> current_direction_idx s" "current_direction_idx s < 8"
  shows "\<exists>s' r. generate s hour d = Inr (s', r)"
proof -
  have "0 \<le> new_direction_idx s d \<and> new_direction_idx s d < int (length WIND_DIRECTIONS)"
    using new_direction_idx_range [OF assms] by (simp add: WIND_DIRECTIONS_def)
  then obtain wd where wd: "py_index WIND_DIRECTIONS (new_direction_idx s d) = Inr wd"
    by (simp add: py_index_in_range)
  obtain wc where wc:
    "weighted_choice (weather_choices (out_pressure s d) (out_humidity s hour d))
       (weather_draw d) = Inr wc"
    using weighted_choice_total [OF weather_choices_nonempty] by blast
  show ?thesis
    unfolding generate_unfold by (simp add: wd wc)
qed

lemma state_ok_init:
  assumes "init_draws_ok i"
  shows "state_ok (init i)"
proof -
  have "15 \<le> uniform 15 25 (init_temperature i) \<and> uniform 15 25 (init_temperature i) \<le> 25"
    "40 \<le> uniform 40 70 (init_humidity i) \<and> uniform 40 70 (init_humidity i) \<le> 70"
    "1000 \<le> uniform 1000 1025 (init_pressure i) \<and> uniform 1000 1025 (init_pressure i) \<le> 1025"
    "1 \<le> uniform 1 5 (init_wind_speed i) \<and> uniform 1 5 (init_wind_speed i) \<le> 5"
    using assms by (simp_all add: init_draws_ok_def uniform_range)
  moreover have "0 \<le> init_direction i \<and> init_direction i < 8"
    using assms by (simp add: init_draws_ok_def WIND_DIRECTIONS_def)
  ultimately show ?thesis
    by (simp add: state_ok_def init_def)
qed

lemma state_ok_new_state:
  assumes "0 \<le> current_direction_idx s" "current_direction_idx s < 8"
  shows "state_ok (new_state s hour d)"
  using new_direction_idx_range [OF assms, of d]
  by (simp add: state_ok_def new_state_def new_base_temperature_def new_base_humidity_def
        new_base_pressure_def new_base_wind_speed_def)

lemma reachable_idx:
  "reachable s \<Longrightarrow> 0 \<le> current_direction_idx s \<and> current_direction_idx s < 8"
proof (induction rule: reachable.induct)
  case (reachable_init i)
  then show ?case
    by (simp add: init_draws_ok_def init_def WIND_DIRECTIONS_def)
next
  case (reachable_generate s d hour s' r)
  then have "0 \<le> new_direction_idx s d \<and> new_direction_idx s d < 8"
    by (simp add: new_direction_idx_range)
  with generate_Inr(1) [OF reachable_generate.hyps(5)] show ?case
    by (simp add: new_state_def)
qed

subsection \<open>The concrete run\<close>

lemma init_example: "init init_draws0 = state0"
  by (simp add: init_def init_draws0_def state0_def uniform_def)

lemma new_state_example: "new_state state0 4 draws0 = state1"
  by (simp add: generate_aux_defs state0_def state1_def draws0_def seasonal_factor_4
        WIND_DIRECTIONS_def)

lemma out_example:
  "out_temperature state0 4 draws0 = 20.16"
  "out_humidity state0 4 draws0 = 56.3"
  "out_pressure state0 draws0 = 1012.21"
  "out_wind_speed state0 draws0 = 4.67"
  by (simp_all add: generate_aux_defs state0_def draws0_def seasonal_factor_4 fl_zero
        fl_binades round2_def py_round_def Let_def)

lemma idx_example: "new_direction_idx state0 draws0 = 2"
  by (simp add: new_direction_idx_def state0_def draws0_def WIND_DIRECTIONS_def)

lemma wind_direction_example: "py_index WIND_DIRECTIONS 2 = Inr ''E''"
  by (simp add: py_index_def WIND_DIRECTIONS_def)

lemma weather_example:
  "weighted_choice (weather_choices 1012.21 56.3) (weather_draw draws0) = Inr Cloudy"
  by (simp add: weather_choices_def WEATHER_CONDITIONS_def weighted_choice_def
        weighted_choice_at_def uniform_def draws0_def)

lemma generate_example: "generate state0 4 draws0 = Inr (state1, reading1)"
  unfolding generate_unfold new_state_example out_example idx_example wind_direction_example
    weather_example
  by (simp add: reading1_def)

lemma draws0_ok: "draws_ok draws0"
  by (simp add: draws_ok_def unit_draw_def draws0_def)

lemma reachable_state0: "reachable state0"
proof -
  have "init_draws_ok init_draws0"
    by (simp add: init_draws_ok_def unit_draw_def init_draws0_def WIND_DIRECTIONS_def)
  then have "reachable (init init_draws0)" by (rule reachable_init)
  then show ?thesis by (simp only: init_example)
qed

lemma reachable_state1: "reachable state1"
  by (rule reachable_generate [OF reachable_state0 draws0_ok _ _ generate_example]) simp_all

lemma new_state_h10: "new_state state0 10 draws0 = state1_h10"
  by (simp add: generate_aux_defs state0_def state1_h10_def draws0_def seasonal_factor_10
        WIND_DIRECTIONS_def)

lemma out_h10:
  "out_temperature state0 10 draws0 = 25.16"
  "out_humidity state0 10 draws0 = 55.3"
  by (simp_all add: generate_aux_defs state0_def draws0_def seasonal_factor_10 fl_binades
        round2_def py_round_def Let_def)

lemma weather_h10:
  "weighted_choice (weather_choices 1012.21 55.3) (weather_draw draws0) = Inr Cloudy"
  by (simp add: weather_choices_def WEATHER_CONDITIONS_def weighted_choice_def
        weighted_choice_at_def uniform_def draws0_def)

lemma generate_h10: "generate state0 10 draws0 = Inr (state1_h10, reading1_h10)"
  unfolding generate_unfold new_state_h10 out_h10 out_example idx_example
    wind_direction_example weather_h10
  by (simp add: reading1_h10_def)

lemma rain_new_state: "new_state rain_state 4 draws0 = rain_state'"
  by (simp add: generate_aux_defs rain_state_def rain_state'_def draws0_def seasonal_factor_4
        WIND_DIRECTIONS_def)

lemma rain_out:
  "out_temperature rain_state 4 draws0 = 10.16"
  "out_humidity rain_state 4 draws0 = 86.3"
  "out_pressure rain_state draws0 = 989.71"
  "out_wind_speed rain_state draws0 = 9.17"
  by (simp_all add: generate_aux_defs rain_state_def draws0_def seasonal_factor_4 fl_zero
        fl_binades round2_def py_round_def Let_def)

lemma rain_idx: "new_direction_idx rain_state draws0 = 7"
  by (simp add: new_direction_idx_def rain_state_def draws0_def WIND_DIRECTIONS_def)

lemma rain_wind_direction: "py_index WIND_DIRECTIONS 7 = Inr ''NW''"
  by (simp add: py_index_def WIND_DIRECTIONS_def)

lemma rain_weather:
  "weighted_choice (weather_choices 989.71 86.3) (weather_draw draws0) = Inr LightRain"
  by (simp add: weather_choices_def weighted_choice_def weighted_choice_at_def uniform_def
        draws0_def)

lemma generate_rain: "generate rain_state 4 draws0 = Inr (rain_state', rain_reading)"
  unfolding generate_unfold rain_new_state rain_out rain_idx rain_wind_direction rain_weather
  by (simp add: rain_reading_def)

lemma edge_new_state: "new_state edge_state 10 edge_draws = edge_state'"
  by (simp add: generate_aux_defs edge_state_def edge_state'_def edge_draws_def
        seasonal_factor_10 WIND_DIRECTIONS_def)

lemma edge_out:
  "out_temperature edge_state 10 edge_draws = 40.01"
  "out_humidity edge_state 10 edge_draws = 49"
  "out_pressure edge_state edge_draws = 1040.01"
  "out_wind_speed edge_state edge_draws = 5"
  by (simp_all add: generate_aux_defs edge_state_def edge_draws_def seasonal_factor_10
        fl_binades round2_def py_round_def Let_def)

lemma edge_idx: "new_direction_idx edge_state edge_draws = 0"
  by (simp add: new_direction_idx_def edge_state_def edge_draws_def)

lemma edge_wind_direction: "py_index WIND_DIRECTIONS 0 = Inr ''N''"
  by (simp add: py_index_def WIND_DIRECTIONS_def)

lemma edge_weather:
  "weighted_choice (weather_choices 1040.01 49) (weather_draw edge_draws) = Inr Clear"
  by (simp add: weather_choices_def weighted_choice_def weighted_choice_at_def uniform_def
        edge_draws_def)

lemma generate_edge: "generate edge_state 10 edge_draws = Inr (edge_state', edge_reading)"
  unfolding generate_unfold edge_new_state edge_out edge_idx edge_wind_direction edge_weather
  by (simp add: edge_reading_def)

lemma tight_new_state: "new_state tight_state 10 tight_draws = tight_state'"
  by (simp add: generate_aux_defs tight_state_def tight_state'_def tight_draws_def
        seasonal_factor_10 WIND_DIRECTIONS_def)

lemma tight_out:
  "out_temperature tight_state 10 tight_draws = 40.02"
  "out_humidity tight_state 10 tight_draws = 49"
  "out_pressure tight_state tight_draws = 979.76"
  "out_wind_speed tight_state tight_draws = 5"
  by (simp_all add: generate_aux_defs tight_state_def tight_draws_def seasonal_factor_10
        fl_binades round2_def py_round_def Let_def)

lemma tight_idx: "new_direction_idx tight_state tight_draws = 0"
  by (simp add: new_direction_idx_def tight_state_def tight_draws_def)

lemma tight_weather:
  "weighted_choice (weather_choices 979.76 49) (weather_draw tight_draws) = Inr Cloudy"
  by (simp add: weather_choices_def WEATHER_CONDITIONS_def weighted_choice_def
        weighted_choice_at_def uniform_def tight_draws_def)

lemma generate_tight: "generate tight_state 10 tight_draws = Inr (tight_state', tight_reading)"
  unfolding generate_unfold tight_new_state tight_out tight_idx edge_wind_direction
    tight_weather
  by (simp add: tight_reading_def)

subsection \<open>Bounds on the reading\<close>

text \<open>The double rounding of one operation moves its result by at most
  \<open>(|x| + 1) / 2^53\<close>; over the operations of one output expression this stays below
  \<open>(1 + |noise|) / 10^12\<close>.\<close>

lemma out_pressure_bounds:
  "980 - \<bar>pressure_noise d\<bar> - 5 / 1000 - (1 + \<bar>pressure_noise d\<bar>) / 10 ^ 12
     \<le> out_pressure s d \<and>
   out_pressure s d
     \<le> 1040 + \<bar>pressure_noise d\<bar> + 5 / 1000 + (1 + \<bar>pressure_noise d\<bar>) / 10 ^ 12"
proof -
  let ?x = "new_base_pressure s d + pressure_noise d"
  have base: "980 \<le> new_base_pressure s d \<and> new_base_pressure s d \<le> 1040"
    by (simp add: new_base_pressure_def)
  then have size: "\<bar>?x\<bar> \<le> 1040 + \<bar>pressure_noise d\<bar>"
    by linarith
  have "\<bar>fl ?x - ?x\<bar> \<le> (\<bar>?x\<bar> + 1) / 2 ^ 53"
    by (rule fl_error)
  also have "\<dots> \<le> (1041 + \<bar>pressure_noise d\<bar>) / 2 ^ 53"
    using size by (intro divide_right_mono) simp_all
  also have "\<dots> \<le> (1 + \<bar>pressure_noise d\<bar>) / 10 ^ 12"
    by simp
  finally have err: "\<bar>fl ?x - ?x\<bar> \<le> (1 + \<bar>pressure_noise d\<bar>) / 10 ^ 12" .
  show ?thesis
    unfolding out_pressure_def
    using base err round2_upper [of "fl ?x"] round2_lower [of "fl ?x"]
    by linarith
qed

lemma out_temperature_bounds:
  "-10 - 5 - \<bar>temperature_noise d\<bar> - 5 / 1000 - (1 + \<bar>temperature_noise d\<bar>) / 10 ^ 12
     \<le> out_temperature s hour d \<and>
   out_temperature s hour d
     \<le> 35 + 5 + \<bar>temperature_noise d\<bar> + 5 / 1000 + (1 + \<bar>temperature_noise d\<bar>) / 10 ^ 12"
proof -
  let ?b = "new_base_temperature s d"
  let ?a = "get_seasonal_factor hour * 5"
  let ?m = "temperature_noise d"
  let ?y = "?b + fl ?a"
  let ?z = "fl ?y + ?m"
  define u :: real where "u = 1 / 2 ^ 53"
  have u: "0 \<le> u" "u \<le> 1 / 100"
    by (simp_all add: u_def)
  have fl_u: "\<bar>fl x - x\<bar> \<le> (\<bar>x\<bar> + 1) * u" for x
    using fl_error [of x] by (simp add: u_def)
  have base: "-10 \<le> ?b \<and> ?b \<le> 35"
    by (simp add: new_base_temperature_def)
  have addend: "-5 \<le> ?a \<and> ?a \<le> 5"
    using seasonal_factor_bounds [of hour] by simp
  have "(\<bar>?a\<bar> + 1) * u \<le> 6 * u"
    using addend u(1) by (intro mult_right_mono) (simp_all add: abs_le_iff)
  with fl_u [of ?a] have err_a: "\<bar>fl ?a - ?a\<bar> \<le> 6 * u"
    by linarith
  have size_y: "\<bar>?y\<bar> \<le> 41"
    using base addend err_a u(2) by linarith
  have "(\<bar>?y\<bar> + 1) * u \<le> 42 * u"
    using size_y u(1) by (intro mult_right_mono) simp_all
  with fl_u [of ?y] have err_y: "\<bar>fl ?y - ?y\<bar> \<le> 42 * u"
    by linarith
  have size_z: "\<bar>?z\<bar> \<le> 42 + \<bar>?m\<bar>"
    using size_y err_y u(2) by linarith
  have "(\<bar>?z\<bar> + 1) * u \<le> (43 + \<bar>?m\<bar>) * u"
    using size_z u(1) by (intro mult_right_mono) simp_all
  with fl_u [of ?z] have err_z: "\<bar>fl ?z - ?z\<bar> \<le> (43 + \<bar>?m\<bar>) * u"
    by linarith
  have "\<bar>fl ?z - (?b + ?a + ?m)\<bar> \<le> 6 * u + 42 * u + (43 + \<bar>?m\<bar>) * u"
    using err_a err_y err_z by linarith
  also have "\<dots> = (91 + \<bar>?m\<bar>) / 2 ^ 53"
    by (simp add: u_def field_simps)
  also have "\<dots> \<le> (1 + \<bar>?m\<bar>) / 10 ^ 12"
    by simp
  finally have err: "\<bar>fl ?z - (?b + ?a + ?m)\<bar> \<le> (1 + \<bar>?m\<bar>) / 10 ^ 12" .
  show ?thesis
    unfolding out_temperature_def
    using base addend err round2_upper [of "fl ?z"] round2_lower [of "fl ?z"]
    by linarith
qed

subsection \<open>The seasonal factor at two more hours\<close>

lemma seasonal_factor_14: "get_seasonal_factor 14 = 1 / 2"
proof -
  have "(of_int 14 - 4) * pi / 12 = pi - pi / 6"
    by simp
  then show ?thesis
    unfolding get_seasonal_factor_def by (simp only: sin_pi_minus sin_30)
qed

lemma seasonal_factor_22: "get_seasonal_factor 22 = -1"
proof -
  have "(of_int 22 - 4) * pi / 12 = 3 / 2 * pi"
    by simp
  then show ?thesis
    unfolding get_seasonal_factor_def by (simp only: sin_3over2_pi)
qed

subsection \<open>The selection loop against the specification's rule\<close>

lemma find_upt_Suc:
  "find P [0..<Suc n] = (if P 0 then Some 0 else map_option Suc (find (P \<circ> Suc) [0..<n]))"
proof -
  have "[0..<Suc n] = 0 # map Suc [0..<n]"
    by (simp add: upt_conv_Cons map_Suc_upt del: upt_Suc)
  moreover have "find P (map Suc xs) = map_option Suc (find (P \<circ> Suc) xs)" for xs
    by (induction xs) auto
  ultimately show ?thesis by simp
qed

lemma weighted_walk_find:
  "weighted_walk cs acc r =
     map_option (\<lambda>k. fst (cs ! k)) (find (\<lambda>k. acc + cumulative cs k \<ge> r) [0..<length cs])"
proof (induction cs arbitrary: acc)
  case Nil
  then show ?case by simp
next
  case (Cons a cs)
  obtain c w where a: "a = (c, w)"
    by (cases a)
  have "(\<lambda>k. r \<le> acc + cumulative (a # cs) k) \<circ> Suc = (\<lambda>k. r \<le> (acc + w) + cumulative cs k)"
    by (auto simp: cumulative_def a fun_eq_iff)
  then show ?case
    using Cons.IH [of "acc + w"]
    by (simp add: a find_upt_Suc cumulative_def option.map_comp comp_def del: upt_Suc)
qed

lemma select_spec_example:
  "select_spec [(Clear, 0.5), (PartlyCloudy, 0.35), (Cloudy, 0.15)] 0.6 = PartlyCloudy"
  by (simp add: select_spec_def cumulative_def upt_rec)

subsection \<open>The connection loop\<close>

lemma connect_loop_transient:
  assumes "\<forall>j. k \<le> j \<and> j < m \<longrightarrow> env j = OperationalError" and "k \<le> m" and "m \<le> n"
  shows "connect_loop env [k..<n] =
           (fst (connect_loop env [m..<n]),
            concat (replicate (m - k) [Attempt, Sleep retry_delay])
              @ snd (connect_loop env [m..<n]))"
  using assms
proof (induction "m - k" arbitrary: k)
  case 0
  then show ?case by simp
next
  case (Suc x)
  then have lt: "k < m" "k < n"
    by simp_all
  then have env: "env k = OperationalError"
    using Suc.prems(1) by simp
  have step: "m - k = Suc (m - Suc k)"
    using lt by simp
  have IH: "connect_loop env [Suc k..<n] =
           (fst (connect_loop env [m..<n]),
            concat (replicate (m - Suc k) [Attempt, Sleep retry_delay])
              @ snd (connect_loop env [m..<n]))"
    using Suc.hyps(2) Suc.prems lt by (intro Suc.hyps(1)) simp_all
  have "[k..<n] = k # [Suc k..<n]"
    using lt by (simp add: upt_conv_Cons)
  then show ?case
    by (simp add: env IH step)
qed

lemma attempts_transient:
  "attempts (concat (replicate n [Attempt, Sleep t]) @ tr) = n + attempts tr"
  by (induction n) (simp_all add: attempts_def)

lemma attempts_bound: "attempts (snd (connect_loop env xs)) \<le> length xs"
  by (induction xs) (auto simp: attempts_def split: connect_outcome.splits prod.splits)

section \<open>The claims\<close>

text \<open>
  C1. For every hour of the day the seasonal factor equals
  \<open>sin ((hour - 4) * pi / 12)\<close> and lies in \<open>[-1, 1]\<close>, and this sinusoid has its
  maximum near hour 14 and its minimum near hour 4. The code's own comment promises
  the same extrema. Evaluated, the factor is at its maximum 1 at hour 10 and at its
  minimum -1 at hour 22; at hour 14 it is only 1/2 and at hour 4 it is 0, and no
  hour gives more than hour 10 or less than hour 22.
\<close>

theorem seasonal_factor_extrema:
  "get_seasonal_factor 10 = 1 \<and> get_seasonal_factor 14 = 1 / 2 \<and>
   get_seasonal_factor 22 = -1 \<and> get_seasonal_factor 4 = 0 \<and>
   get_seasonal_factor 14 < get_seasonal_factor 10 \<and>
   get_seasonal_factor 22 < get_seasonal_factor 4 \<and>
   get_seasonal_factor hour \<le> get_seasonal_factor 10 \<and>
   get_seasonal_factor 22 \<le> get_seasonal_factor hour"
  using seasonal_factor_bounds [of hour]
  by (simp add: seasonal_factor_10 seasonal_factor_14 seasonal_factor_22 seasonal_factor_4)

text \<open>
  C2. In every call of \<open>generate\<close>: if the reading's pressure is below 1000 and its
  humidity above 70, the weather condition is the weighted selection from overcast
  0.3, light rain 0.3, rain 0.25, thunderstorm 0.1, fog 0.05, and so one of these
  five; otherwise, if the pressure is above 1020, it is the weighted selection from
  clear 0.5, partly cloudy 0.35, cloudy 0.15; otherwise it is the weighted selection
  from the default list of eight conditions.
\<close>

theorem weather_regime:
  assumes "generate s hour d = Inr (s', r)"
  shows "if pressure r < 1000 \<and> humidity r > 70 then
           weighted_choice
             [(Overcast, 0.3), (LightRain, 0.3), (Rain, 0.25), (Thunderstorm, 0.1), (Fog, 0.05)]
             (weather_draw d) = Inr (weather_condition r) \<and>
           weather_condition r \<in> {Overcast, LightRain, Rain, Thunderstorm, Fog}
         else if pressure r > 1020 then
           weighted_choice [(Clear, 0.5), (PartlyCloudy, 0.35), (Cloudy, 0.15)]
             (weather_draw d) = Inr (weather_condition r) \<and>
           weather_condition r \<in> {Clear, PartlyCloudy, Cloudy}
         else
           weighted_choice
             [(Clear, 0.25), (PartlyCloudy, 0.20), (Cloudy, 0.20), (Overcast, 0.15),
              (LightRain, 0.10), (Rain, 0.05), (Thunderstorm, 0.03), (Fog, 0.02)]
             (weather_draw d) = Inr (weather_condition r) \<and>
           weather_condition r \<in>
             {Clear, PartlyCloudy, Cloudy, Overcast, LightRain, Rain, Thunderstorm, Fog}"
proof -
  have wc: "weighted_choice (weather_choices (pressure r) (humidity r)) (weather_draw d)
              = Inr (weather_condition r)"
    using generate_Inr(3,4,7) [OF assms] by simp
  show ?thesis
  proof (cases "pressure r < 1000 \<and> humidity r > 70")
    case True
    with wc have sel: "weighted_choice
             [(Overcast, 0.3), (LightRain, 0.3), (Rain, 0.25), (Thunderstorm, 0.1), (Fog, 0.05)]
             (weather_draw d) = Inr (weather_condition r)"
      by (simp add: weather_choices_def)
    from weighted_choice_mem [OF sel] True sel show ?thesis
      by auto
  next
    case False
    show ?thesis
    proof (cases "pressure r > 1020")
      case True
      with wc False have sel:
        "weighted_choice [(Clear, 0.5), (PartlyCloudy, 0.35), (Cloudy, 0.15)]
           (weather_draw d) = Inr (weather_condition r)"
        by (simp add: weather_choices_def)
      from weighted_choice_mem [OF sel] True False sel show ?thesis
        by auto
    next
      case moderate: False
      with wc False have sel: "weighted_choice
             [(Clear, 0.25), (PartlyCloudy, 0.20), (Cloudy, 0.20), (Overcast, 0.15),
              (LightRain, 0.10), (Rain, 0.05), (Thunderstorm, 0.03), (Fog, 0.02)]
             (weather_draw d) = Inr (weather_condition r)"
        by (simp add: weather_choices_def WEATHER_CONDITIONS_def)
      from weighted_choice_mem [OF sel] moderate False sel show ?thesis
        by auto
    qed
  qed
qed

theorem weather_regime_witness:
  "generate rain_state 4 draws0 = Inr (rain_state', rain_reading) \<and>
   pressure rain_reading < 1000 \<and> humidity rain_reading > 70 \<and>
   weather_condition rain_reading \<in> {Overcast, LightRain, Rain, Thunderstorm, Fog} \<and>
   generate edge_state 10 edge_draws = Inr (edge_state', edge_reading) \<and>
   pressure edge_reading > 1020 \<and>
   weather_condition edge_reading \<in> {Clear, PartlyCloudy, Cloudy} \<and>
   generate state0 4 draws0 = Inr (state1, reading1) \<and>
   \<not> pressure reading1 < 1000 \<and> \<not> pressure reading1 > 1020 \<and>
   weighted_choice WEATHER_CONDITIONS (weather_draw draws0) = Inr (weather_condition reading1)"
  using weather_regime [OF generate_rain] weather_regime [OF generate_edge]
    weather_regime [OF generate_example] generate_rain generate_edge generate_example
  by (simp add: rain_reading_def edge_reading_def reading1_def WEATHER_CONDITIONS_def)

text \<open>
  C3. After construction and after every call of \<open>generate\<close>, whatever the draws and
  the hour, the latent state satisfies: base temperature in \<open>[-10, 35]\<close>, base
  humidity in \<open>[20, 100]\<close>, base pressure in \<open>[980, 1040]\<close>, base wind speed in
  \<open>[0, 20]\<close> and wind direction index in \<open>[0, 8)\<close>.
\<close>

theorem latent_state_invariant: "reachable s \<Longrightarrow> state_ok s"
proof (induction rule: reachable.induct)
  case (reachable_init i)
  then show ?case by (rule state_ok_init)
next
  case (reachable_generate s d hour s' r)
  from reachable_generate.IH
  have "0 \<le> current_direction_idx s" "current_direction_idx s < 8"
    by (simp_all add: state_ok_def)
  then have "state_ok (new_state s hour d)"
    by (rule state_ok_new_state)
  with generate_Inr(1) [OF reachable_generate.hyps(5)] show ?case
    by simp
qed

theorem latent_state_invariant_witness:
  "reachable state0 \<and> state_ok state0 \<and> reachable state1 \<and> state_ok state1"
  using latent_state_invariant [OF reachable_state0] latent_state_invariant [OF reachable_state1]
    reachable_state0 reachable_state1
  by simp

text \<open>
  C4, as claimed: in every call of \<open>generate\<close> the reading's humidity lies in
  \<open>[20, 100]\<close>, its wind speed in \<open>[0, 25]\<close>, its pressure within
  \<open>[980 - |n|, 1040 + |n|]\<close> for that call's pressure noise \<open>n\<close>, and its temperature
  within \<open>[-10, 35]\<close> widened by the seasonal addend of at most 5 and by the
  temperature noise. The pressure and temperature parts fail: both outputs are
  rounded to two decimals after the noise is added, and the rounding can carry them
  past the bound. With base pressure 1040, base temperature 35, hour 10 and noise
  0.006 in each, the reading has pressure 1040.01 and temperature 40.01.
\<close>

theorem output_ranges_counterexample:
  "generate edge_state 10 edge_draws = Inr (edge_state', edge_reading) \<and>
   state_ok edge_state \<and> draws_ok edge_draws \<and>
   \<not> pressure edge_reading \<le> 1040 + \<bar>pressure_noise edge_draws\<bar> \<and>
   \<not> temperature edge_reading \<le> 35 + 5 + \<bar>temperature_noise edge_draws\<bar>"
  using generate_edge
  by (simp add: edge_reading_def edge_draws_def edge_state_def state_ok_def draws_ok_def
        unit_draw_def)

text \<open>
  C4, amended: humidity in \<open>[20, 100]\<close> and wind speed in \<open>[0, 25]\<close> exactly; pressure
  within \<open>[980 - |n| - 0.005 - t, 1040 + |n| + 0.005 + t]\<close> with \<open>t = (1 + |n|) / 10^12\<close>,
  and temperature within \<open>[-15 - |m| - 0.005 - t', 40 + |m| + 0.005 + t']\<close> with
  \<open>t' = (1 + |m|) / 10^12\<close>, where \<open>n\<close> and \<open>m\<close> are the call's pressure and temperature
  noise. The 0.005 is the most that rounding to two decimals moves a value; \<open>t\<close> and
  \<open>t'\<close> bound the rounding of the double operations that compute the value handed to
  \<open>round\<close>, with room left for the conversion of the rounded decimal to a double.
\<close>

theorem output_ranges:
  assumes "generate s hour d = Inr (s', r)"
  shows "20 \<le> humidity r \<and> humidity r \<le> 100 \<and>
         0 \<le> wind_speed r \<and> wind_speed r \<le> 25 \<and>
         980 - \<bar>pressure_noise d\<bar> - 5 / 1000 - (1 + \<bar>pressure_noise d\<bar>) / 10 ^ 12
           \<le> pressure r \<and>
         pressure r
           \<le> 1040 + \<bar>pressure_noise d\<bar> + 5 / 1000 + (1 + \<bar>pressure_noise d\<bar>) / 10 ^ 12 \<and>
         -10 - 5 - \<bar>temperature_noise d\<bar> - 5 / 1000 - (1 + \<bar>temperature_noise d\<bar>) / 10 ^ 12
           \<le> temperature r \<and>
         temperature r
           \<le> 35 + 5 + \<bar>temperature_noise d\<bar> + 5 / 1000 + (1 + \<bar>temperature_noise d\<bar>) / 10 ^ 12"
proof -
  have "20 \<le> humidity r \<and> humidity r \<le> 100"
    by (simp add: generate_Inr(3) [OF assms] out_humidity_def)
  moreover have "0 \<le> wind_speed r \<and> wind_speed r \<le> 25"
    by (simp add: generate_Inr(5) [OF assms] out_wind_speed_def)
  ultimately show ?thesis
    using out_pressure_bounds [of d s] out_temperature_bounds [of d s hour]
    by (simp only: generate_Inr(2,4) [OF assms] simp_thms)
qed

text \<open>The amended bounds at two inputs; at the second, the pressure lies below
  \<open>980 - |n| - 0.005\<close> and the temperature above \<open>40 + |m| + 0.005\<close>, inside the
  tolerance of the double operations.\<close>

theorem output_ranges_witness:
  "generate rain_state 4 draws0 = Inr (rain_state', rain_reading) \<and>
   20 \<le> humidity rain_reading \<and> humidity rain_reading \<le> 100 \<and>
   0 \<le> wind_speed rain_reading \<and> wind_speed rain_reading \<le> 25 \<and>
   980 - \<bar>pressure_noise draws0\<bar> - 5 / 1000 - (1 + \<bar>pressure_noise draws0\<bar>) / 10 ^ 12
     \<le> pressure rain_reading \<and>
   pressure rain_reading
     \<le> 1040 + \<bar>pressure_noise draws0\<bar> + 5 / 1000 + (1 + \<bar>pressure_noise draws0\<bar>) / 10 ^ 12 \<and>
   -10 - 5 - \<bar>temperature_noise draws0\<bar> - 5 / 1000 - (1 + \<bar>temperature_noise draws0\<bar>) / 10 ^ 12
     \<le> temperature rain_reading \<and>
   temperature rain_reading
     \<le> 35 + 5 + \<bar>temperature_noise draws0\<bar> + 5 / 1000
         + (1 + \<bar>temperature_noise draws0\<bar>) / 10 ^ 12 \<and>
   generate tight_state 10 tight_draws = Inr (tight_state', tight_reading) \<and>
   980 - \<bar>pressure_noise tight_draws\<bar> - 5 / 1000 - (1 + \<bar>pressure_noise tight_draws\<bar>) / 10 ^ 12
     \<le> pressure tight_reading \<and>
   pressure tight_reading < 980 - \<bar>pressure_noise tight_draws\<bar> - 5 / 1000 \<and>
   temperature tight_reading
     \<le> 35 + 5 + \<bar>temperature_noise tight_draws\<bar> + 5 / 1000
         + (1 + \<bar>temperature_noise tight_draws\<bar>) / 10 ^ 12 \<and>
   35 + 5 + \<bar>temperature_noise tight_draws\<bar> + 5 / 1000 < temperature tight_reading"
  using output_ranges [OF generate_rain] output_ranges [OF generate_tight]
    generate_rain generate_tight
  by (simp add: tight_reading_def tight_draws_def)

text \<open>
  C5. \<open>connect_to_db\<close> makes at most 30 connection attempts, with a sleep of 2
  seconds after each failed one. If the first \<open>N\<close> attempts fail with
  OperationalError and attempt \<open>N + 1\<close> succeeds, \<open>N < 30\<close>, it returns that
  connection after exactly \<open>N + 1\<close> attempts; if all 30 attempts fail with
  OperationalError it raises the final error after exactly 30 attempts.
\<close>

theorem connect_retry:
  "(N < max_retries \<and> (\<forall>k<N. env k = OperationalError) \<and> env N = Connected conn
      \<longrightarrow> connect_to_db env
            = (Inr conn, concat (replicate N [Attempt, Sleep 2]) @ [Attempt]) \<and>
          attempts (snd (connect_to_db env)) = N + 1) \<and>
   ((\<forall>k<max_retries. env k = OperationalError)
      \<longrightarrow> connect_to_db env
            = (Inl ConnectionExhausted, concat (replicate 30 [Attempt, Sleep 2])) \<and>
          attempts (snd (connect_to_db env)) = 30) \<and>
   attempts (snd (connect_to_db env)) \<le> 30"
proof (intro conjI impI)
  assume h: "N < max_retries \<and> (\<forall>k<N. env k = OperationalError) \<and> env N = Connected conn"
  then have "[N..<max_retries] = N # [Suc N..<max_retries]"
    by (simp add: upt_conv_Cons)
  with h have final: "connect_loop env [N..<max_retries] = (Inr conn, [Attempt])"
    by simp
  from h have "connect_loop env [0..<max_retries] =
           (fst (connect_loop env [N..<max_retries]),
            concat (replicate (N - 0) [Attempt, Sleep retry_delay])
              @ snd (connect_loop env [N..<max_retries]))"
    by (intro connect_loop_transient) simp_all
  with final show run: "connect_to_db env
            = (Inr conn, concat (replicate N [Attempt, Sleep 2]) @ [Attempt])"
    by (simp add: connect_to_db_def retry_delay_def)
  show "attempts (snd (connect_to_db env)) = N + 1"
    unfolding run by (simp add: attempts_transient) (simp add: attempts_def)
next
  assume h: "\<forall>k<max_retries. env k = OperationalError"
  then have "connect_loop env [0..<max_retries] =
           (fst (connect_loop env [max_retries..<max_retries]),
            concat (replicate (max_retries - 0) [Attempt, Sleep retry_delay])
              @ snd (connect_loop env [max_retries..<max_retries]))"
    by (intro connect_loop_transient) simp_all
  then show run: "connect_to_db env
            = (Inl ConnectionExhausted, concat (replicate 30 [Attempt, Sleep 2]))"
    by (simp add: connect_to_db_def retry_delay_def max_retries_def)
  show "attempts (snd (connect_to_db env)) = 30"
    unfolding run using attempts_transient [of 30 2 "[]"] by (simp add: attempts_def)
next
  show "attempts (snd (connect_to_db env)) \<le> 30"
    using attempts_bound [of env "[0..<max_retries]"]
    by (simp add: connect_to_db_def max_retries_def)
qed

theorem connect_retry_witness:
  "connect_to_db env_late
     = (Inr 7, [Attempt, Sleep 2, Attempt, Sleep 2, Attempt, Sleep 2, Attempt]) \<and>
   attempts (snd (connect_to_db env_late)) = 4 \<and>
   fst (connect_to_db env_down) = Inl ConnectionExhausted \<and>
   attempts (snd (connect_to_db env_down)) = 30"
proof -
  have late: "3 < max_retries \<and> (\<forall>k<3. env_late k = OperationalError) \<and>
              env_late 3 = Connected 7"
    by (simp add: env_late_def max_retries_def)
  have down: "\<forall>k<max_retries. env_down k = OperationalError"
    by (simp add: env_down_def)
  from connect_retry [where env = env_late and N = 3 and conn = 7] late
  have run: "connect_to_db env_late
               = (Inr 7, concat (replicate 3 [Attempt, Sleep 2]) @ [Attempt])"
    and count: "attempts (snd (connect_to_db env_late)) = 3 + 1"
    by blast+
  from connect_retry [where env = env_down and N = 0 and conn = 0] down
  have exhausted: "connect_to_db env_down
               = (Inl ConnectionExhausted, concat (replicate 30 [Attempt, Sleep 2]))"
    and count_all: "attempts (snd (connect_to_db env_down)) = 30"
    by blast+
  from run have "connect_to_db env_late
     = (Inr 7, [Attempt, Sleep 2, Attempt, Sleep 2, Attempt, Sleep 2, Attempt])"
    by (simp add: numeral_3_eq_3)
  moreover from count have "attempts (snd (connect_to_db env_late)) = 4"
    by simp
  moreover from exhausted have "fst (connect_to_db env_down) = Inl ConnectionExhausted"
    by simp
  ultimately show ?thesis
    using count_all by blast
qed

text \<open>
  C6. For every non-empty weighted list and every draw \<open>r\<close> between 0 and the total
  weight, the weighted selection returns the first entry whose cumulative weight is
  at least \<open>r\<close>, and the last entry when there is none; for the list with weights
  1 and 0 it returns the first entry for every possible draw.
\<close>

theorem weighted_selection:
  "(choices \<noteq> [] \<and> 0 \<le> r \<and> r \<le> sum_list (map snd choices)
      \<longrightarrow> weighted_choice_at choices r = Inr (select_spec choices r)) \<and>
   (0 \<le> r' \<and> r' \<le> 1 \<longrightarrow> weighted_choice_at [(a, 1), (b, 0)] r' = Inr a) \<and>
   (0 \<le> u \<and> u \<le> 1 \<longrightarrow> weighted_choice [(a, 1), (b, 0)] u = Inr a)"
proof -
  have "weighted_choice_at choices r = Inr (select_spec choices r)" if "choices \<noteq> []"
    using that
    by (simp add: weighted_choice_at_def select_spec_def weighted_walk_find py_index_last
          split: option.splits)
  moreover have "weighted_choice_at [(a, 1), (b, 0)] r' = Inr a" if "r' \<le> 1"
    using that by (simp add: weighted_choice_at_def)
  moreover have "weighted_choice [(a, 1), (b, 0)] u = Inr a" if "u \<le> 1"
    using that by (simp add: weighted_choice_def weighted_choice_at_def uniform_def)
  ultimately show ?thesis by simp
qed

theorem weighted_selection_witness:
  "weighted_choice_at [(Clear, 0.5), (PartlyCloudy, 0.35), (Cloudy, 0.15)] 0.6
     = Inr PartlyCloudy \<and>
   weighted_choice_at [(Clear, 1), (Fog, 0)] 1 = Inr Clear \<and>
   weighted_choice [(Clear, 1), (Fog, 0)] (1 / 2) = Inr Clear"
  using weighted_selection
    [where choices = "[(Clear, 0.5), (PartlyCloudy, 0.35), (Cloudy, 0.15)]" and r = "0.6"
       and r' = 1 and a = Clear and b = Fog and u = "1 / 2"]
    select_spec_example
  by simp

text \<open>
  C7. In one call of \<open>generate\<close> the wind direction index moves by at most one
  circular step: it stays when the uniform draw is at least 0.05 (an event of
  probability 0.95) and becomes the old index plus the chosen sign, modulo 8, when
  the draw is below 0.05 (probability 0.05); the reading's wind direction is the
  compass label at the resulting index.
\<close>

theorem wind_direction_step:
  assumes "reachable s" and "draws_ok d" and "generate s hour d = Inr (s', r)"
  shows "current_direction_idx s' =
           (if direction_draw d < 0.05
            then (current_direction_idx s + direction_choice d) mod 8
            else current_direction_idx s) \<and>
         (current_direction_idx s' = current_direction_idx s \<or>
          current_direction_idx s' = (current_direction_idx s + 1) mod 8 \<or>
          current_direction_idx s' = (current_direction_idx s - 1) mod 8) \<and>
         0 \<le> current_direction_idx s' \<and> current_direction_idx s' < 8 \<and>
         wind_direction r = WIND_DIRECTIONS ! nat (current_direction_idx s')"
proof -
  have idx: "0 \<le> current_direction_idx s" "current_direction_idx s < 8"
    using reachable_idx [OF assms(1)] by simp_all
  have new: "current_direction_idx s' = new_direction_idx s d"
    using generate_Inr(1) [OF assms(3)] by (simp add: new_state_def)
  have rng: "0 \<le> new_direction_idx s d" "new_direction_idx s d < 8"
    using new_direction_idx_range [OF idx, of d] by simp_all
  have choice: "direction_choice d = -1 \<or> direction_choice d = 1"
    using assms(2) by (simp add: draws_ok_def)
  have step: "new_direction_idx s d =
           (if direction_draw d < 0.05
            then (current_direction_idx s + direction_choice d) mod 8
            else current_direction_idx s)"
    by (simp add: new_direction_idx_def WIND_DIRECTIONS_def)
  have "py_index WIND_DIRECTIONS (new_direction_idx s d)
          = Inr (WIND_DIRECTIONS ! nat (new_direction_idx s d))"
    using rng by (intro py_index_in_range) (simp_all add: WIND_DIRECTIONS_def)
  with generate_Inr(6) [OF assms(3)]
  have label: "wind_direction r = WIND_DIRECTIONS ! nat (new_direction_idx s d)"
    by simp
  from step choice have "new_direction_idx s d = current_direction_idx s \<or>
          new_direction_idx s d = (current_direction_idx s + 1) mod 8 \<or>
          new_direction_idx s d = (current_direction_idx s - 1) mod 8"
    by (auto split: if_splits)
  with step rng label show ?thesis
    unfolding new by blast
qed

theorem wind_direction_step_witness:
  "reachable state0 \<and> draws_ok draws0 \<and> generate state0 4 draws0 = Inr (state1, reading1) \<and>
   current_direction_idx state0 = 3 \<and> current_direction_idx state1 = 2 \<and>
   current_direction_idx state1 = (current_direction_idx state0 - 1) mod 8 \<and>
   wind_direction reading1 = WIND_DIRECTIONS ! nat (current_direction_idx state1)"
  using wind_direction_step [OF reachable_state0 draws0_ok generate_example]
    reachable_state0 draws0_ok generate_example
  by (simp add: state0_def state1_def)

text \<open>
  C8. The seasonal temperature addend (seasonal factor times 5) is never stored in
  the latent base: the base temperature after a call is the clamp of the base
  before it plus a tenth of that call's perturbation draw, so two calls that start
  from the same base temperature with the same perturbation end with the same base
  temperature whatever their hours, their other draws and the rest of their states;
  the addend enters only the temperature of the reading, which is the rounding to
  two decimals of the double sum of the new base, the addend and the noise.
\<close>

theorem seasonal_addend_not_persisted:
  assumes "generate s hour d = Inr (s', r)"
    and "generate s2 hour2 d2 = Inr (s2', r2)"
    and "base_temperature s2 = base_temperature s"
    and "temperature_variation d2 = temperature_variation d"
  shows "base_temperature s2' = base_temperature s' \<and>
         base_temperature s' =
           max (-10) (min 35 (base_temperature s + temperature_variation d * 0.1)) \<and>
         temperature r =
           round2 (fl (fl (base_temperature s' + fl (get_seasonal_factor hour * 5))
                         + temperature_noise d))"
proof -
  have base: "base_temperature s' = new_base_temperature s d"
    using generate_Inr(1) [OF assms(1)] by (simp add: new_state_def)
  have base2: "base_temperature s2' = new_base_temperature s2 d2"
    using generate_Inr(1) [OF assms(2)] by (simp add: new_state_def)
  have out: "temperature r = out_temperature s hour d"
    by (rule generate_Inr(2) [OF assms(1)])
  from base base2 assms(3,4) have "base_temperature s2' = base_temperature s'"
    by (simp add: new_base_temperature_def)
  with base out show ?thesis
    by (simp add: new_base_temperature_def out_temperature_def)
qed

theorem seasonal_addend_not_persisted_witness:
  "generate state0 4 draws0 = Inr (state1, reading1) \<and>
   generate state0 10 draws0 = Inr (state1_h10, reading1_h10) \<and>
   base_temperature state1_h10 = base_temperature state1 \<and>
   temperature reading1 = 20.16 \<and> temperature reading1_h10 = 25.16"
  using seasonal_addend_not_persisted [OF generate_example generate_h10]
    generate_example generate_h10
  by (simp add: reading1_def reading1_h10_def)

text \<open>
  C9. \<open>generate\<close> is total and cannot fail: for every reachable state, every hour and
  every sequence of draws it returns a new state and a complete reading; no
  IndexError arises from the compass lookup or from the weighted selection.
\<close>

theorem generate_cannot_fail:
  "reachable s \<Longrightarrow> \<exists>s' r. generate s hour d = Inr (s', r)"
  using reachable_idx [of s] generate_total [of s hour d] by blast

theorem generate_cannot_fail_witness:
  "reachable state1 \<and> (\<exists>s' r. generate state1 4 draws0 = Inr (s', r))"
  using generate_cannot_fail [OF reachable_state1, of 4 draws0] reachable_state1
  by simp

text \<open>
  C10. Only OperationalError is retried: when a connection attempt raises any other
  exception, after \<open>N\<close> attempts that failed with OperationalError, that exception
  reaches the caller at once; the attempt is the last event of the trace, with no
  sleep and no further attempt after it.
\<close>

theorem other_exception_propagates:
  assumes "N < max_retries" and "\<forall>k<N. env k = OperationalError"
    and "env N = OtherException e"
  shows "connect_to_db env
           = (Inl (Propagated e), concat (replicate N [Attempt, Sleep 2]) @ [Attempt]) \<and>
         attempts (snd (connect_to_db env)) = N + 1"
proof -
  from assms(1) have "[N..<max_retries] = N # [Suc N..<max_retries]"
    by (simp add: upt_conv_Cons)
  with assms(3) have final: "connect_loop env [N..<max_retries] = (Inl (Propagated e), [Attempt])"
    by simp
  from assms have "connect_loop env [0..<max_retries] =
           (fst (connect_loop env [N..<max_retries]),
            concat (replicate (N - 0) [Attempt, Sleep retry_delay])
              @ snd (connect_loop env [N..<max_retries]))"
    by (intro connect_loop_transient) simp_all
  with final have run: "connect_to_db env
            = (Inl (Propagated e), concat (replicate N [Attempt, Sleep 2]) @ [Attempt])"
    by (simp add: connect_to_db_def retry_delay_def)
  have "attempts (snd (connect_to_db env)) = N + 1"
    unfolding run by (simp add: attempts_transient) (simp add: attempts_def)
  with run show ?thesis by simp
qed

theorem other_exception_propagates_witness:
  "connect_to_db env_denied
     = (Inl (Propagated ''ProgrammingError''), [Attempt, Sleep 2, Attempt, Sleep 2, Attempt]) \<and>
   attempts (snd (connect_to_db env_denied)) = 3"
proof -
  have "2 < max_retries" and "\<forall>k<2. env_denied k = OperationalError"
    and "env_denied 2 = OtherException ''ProgrammingError''"
    by (simp_all add: env_denied_def max_retries_def)
  then have run: "connect_to_db env_denied
           = (Inl (Propagated ''ProgrammingError''),
              concat (replicate 2 [Attempt, Sleep 2]) @ [Attempt])"
    and count: "attempts (snd (connect_to_db env_denied)) = 2 + 1"
    using other_exception_propagates [of 2 env_denied "''ProgrammingError''"] by blast+
  from run have "connect_to_db env_denied
     = (Inl (Propagated ''ProgrammingError''), [Attempt, Sleep 2, Attempt, Sleep 2, Attempt])"
    by (simp add: numeral_2_eq_2)
  moreover from count have "attempts (snd (connect_to_db env_denied)) = 3"
    by simp
  ultimately show ?thesis
    by blast
qed

end
